theory Spec2Isabelle
  imports Main
begin

section \<open>Raw handles and the external binder runtime\<close>

text \<open>
  \<^verbatim>\<open>binder_auto_utils.h\<close> wraps raw pointers (\<^verbatim>\<open>AIBinder*\<close>, \<^verbatim>\<open>AStatus*\<close>,
  \<^verbatim>\<open>AParcel*\<close>, ...) handed out by the binder runtime. A raw pointer is an address;
  address \<open>0\<close> is \<^verbatim>\<open>nullptr\<close>.
\<close>

type_synonym ptr = nat

definition nullptr :: ptr where
  "nullptr = 0"

text \<open>
  The second template argument of \<^verbatim>\<open>ScopedA<T, Destroy>\<close>: the four functions the header
  instantiates it with.
\<close>

datatype deleter =
    AParcel_delete
  | AStatus_delete
  | AIBinder_DeathRecipient_delete
  | AIBinder_Weak_delete

text \<open>
  Every call that leaves the header for the runtime is written to a log, with its argument,
  in program order.
\<close>

datatype call =
    IncStrong ptr
  | DecStrong ptr
  | Delete deleter ptr
  | IsOk ptr
  | Promote ptr

text \<open>
  The objects of the header have one field each. They live in a store indexed by the
  object's own address (\<^verbatim>\<open>this\<close>), so that two references to one object are the same
  address.
\<close>

record SpAIBinder =
  mBinder :: ptr

record ScopedA =
  mT :: ptr

type_synonym addr = nat

record world =
  binders :: "addr \<Rightarrow> SpAIBinder"
  boxes :: "addr \<Rightarrow> ScopedA"
  calls :: "call list"

text \<open>
  Modelled from the spec: what the runtime answers. \<^verbatim>\<open>AStatus_isOk\<close> and
  \<^verbatim>\<open>AIBinder_Weak_promote\<close> are declared in \<^verbatim>\<open>binder_status.h\<close> and
  \<^verbatim>\<open>binder_ibinder.h\<close>, which are not part of the sources. Their answers are a parameter
  of the model and may depend on everything that was called before.
\<close>

record runtime =
  isOk_result :: "call list \<Rightarrow> ptr \<Rightarrow> bool"
  promote_result :: "call list \<Rightarrow> ptr \<Rightarrow> ptr"

text \<open>
  Modelled from the spec: \<^verbatim>\<open>void AIBinder_incStrong(AIBinder*)\<close> of \<^verbatim>\<open>binder_ibinder.h\<close>
  (not part of the sources). The call is appended to the log; no object of this header is
  touched.
\<close>

definition AIBinder_incStrong :: "ptr \<Rightarrow> world \<Rightarrow> world" where
  "AIBinder_incStrong binder w = w\<lparr>calls := calls w @ [IncStrong binder]\<rparr>"

text \<open>
  Modelled from the spec: \<^verbatim>\<open>void AIBinder_decStrong(AIBinder*)\<close> of \<^verbatim>\<open>binder_ibinder.h\<close>
  (not part of the sources), logged in the same way.
\<close>

definition AIBinder_decStrong :: "ptr \<Rightarrow> world \<Rightarrow> world" where
  "AIBinder_decStrong binder w = w\<lparr>calls := calls w @ [DecStrong binder]\<rparr>"

text \<open>
  Modelled from the spec: the template argument \<^verbatim>\<open>void (*Destroy)(T*)\<close>, one of
  \<^verbatim>\<open>AParcel_delete\<close>, \<^verbatim>\<open>AStatus_delete\<close>, \<^verbatim>\<open>AIBinder_DeathRecipient_delete\<close> and
  \<^verbatim>\<open>AIBinder_Weak_delete\<close> (none of them part of the sources), logged with the function
  that was called.
\<close>

definition Destroy :: "deleter \<Rightarrow> ptr \<Rightarrow> world \<Rightarrow> world" where
  "Destroy d t w = w\<lparr>calls := calls w @ [Delete d t]\<rparr>"

text \<open>
  Modelled from the spec: \<^verbatim>\<open>bool AStatus_isOk(const AStatus*)\<close> of \<^verbatim>\<open>binder_status.h\<close>
  (not part of the sources): logged, and answering what the runtime parameter says.
\<close>

definition AStatus_isOk :: "runtime \<Rightarrow> ptr \<Rightarrow> world \<Rightarrow> bool \<times> world" where
  "AStatus_isOk rt status w =
     (isOk_result rt (calls w) status, w\<lparr>calls := calls w @ [IsOk status]\<rparr>)"

text \<open>
  Modelled from the spec: \<^verbatim>\<open>AIBinder* AIBinder_Weak_promote(AIBinder_Weak*)\<close> of
  \<^verbatim>\<open>binder_ibinder.h\<close> (not part of the sources): logged, and answering what the runtime
  parameter says (a handle, or \<^verbatim>\<open>nullptr\<close> when the referent is gone).
\<close>

definition AIBinder_Weak_promote :: "runtime \<Rightarrow> ptr \<Rightarrow> world \<Rightarrow> ptr \<times> world" where
  "AIBinder_Weak_promote rt weak w =
     (promote_result rt (calls w) weak, w\<lparr>calls := calls w @ [Promote weak]\<rparr>)"

section \<open>SpAIBinder\<close>

text \<open>\<^verbatim>\<open>explicit SpAIBinder(AIBinder* binder = nullptr) : mBinder(binder) {}\<close>\<close>

definition SpAIBinder_ctor :: "addr \<Rightarrow> ptr \<Rightarrow> world \<Rightarrow> world" where
  "SpAIBinder_ctor this binder w =
     w\<lparr>binders := (binders w)(this := \<lparr>mBinder = binder\<rparr>)\<rparr>"

text \<open>
  \<^verbatim>\<open>void set(AIBinder* binder) {
      if (mBinder != nullptr) AIBinder_decStrong(mBinder);
      mBinder = binder; }\<close>
\<close>

definition SpAIBinder_set :: "addr \<Rightarrow> ptr \<Rightarrow> world \<Rightarrow> world" where
  "SpAIBinder_set this binder w =
     (let w1 = (if mBinder (binders w this) \<noteq> nullptr
                then AIBinder_decStrong (mBinder (binders w this)) w
                else w)
      in w1\<lparr>binders := (binders w1)(this := (binders w1 this)\<lparr>mBinder := binder\<rparr>)\<rparr>)"

text \<open>
  \<^verbatim>\<open>SpAIBinder& operator=(const SpAIBinder& other) {
      AIBinder_incStrong(other.mBinder);
      set(other.mBinder);
      return *this; }\<close>
  \<^verbatim>\<open>other.mBinder\<close> is read again after the increment, and before \<^verbatim>\<open>set\<close> runs.
\<close>

definition SpAIBinder_assign :: "addr \<Rightarrow> addr \<Rightarrow> world \<Rightarrow> world" where
  "SpAIBinder_assign this other w =
     (let w1 = AIBinder_incStrong (mBinder (binders w other)) w
      in SpAIBinder_set this (mBinder (binders w1 other)) w1)"

text \<open>
  \<^verbatim>\<open>SpAIBinder(const SpAIBinder& other) { *this = other; }\<close> with the default member
  initializer \<^verbatim>\<open>AIBinder* mBinder = nullptr;\<close>, which runs before the body.
\<close>

definition SpAIBinder_copy :: "addr \<Rightarrow> addr \<Rightarrow> world \<Rightarrow> world" where
  "SpAIBinder_copy this other w =
     SpAIBinder_assign this other
       (w\<lparr>binders := (binders w)(this := \<lparr>mBinder = nullptr\<rparr>)\<rparr>)"

text \<open>\<^verbatim>\<open>~SpAIBinder() { set(nullptr); }\<close>\<close>

definition SpAIBinder_dtor :: "addr \<Rightarrow> world \<Rightarrow> world" where
  "SpAIBinder_dtor this w = SpAIBinder_set this nullptr w"

text \<open>\<^verbatim>\<open>AIBinder* get() const { return mBinder; }\<close>\<close>

definition SpAIBinder_get :: "addr \<Rightarrow> world \<Rightarrow> ptr" where
  "SpAIBinder_get this w = mBinder (binders w this)"

section \<open>ScopedA and its specializations\<close>

text \<open>\<^verbatim>\<open>explicit ScopedA(T* t = nullptr) : mT(t) {}\<close>\<close>

definition ScopedA_ctor :: "addr \<Rightarrow> ptr \<Rightarrow> world \<Rightarrow> world" where
  "ScopedA_ctor this t w = w\<lparr>boxes := (boxes w)(this := \<lparr>mT = t\<rparr>)\<rparr>"

text \<open>\<^verbatim>\<open>void set(T* t) { Destroy(mT); mT = t; }\<close>\<close>

definition ScopedA_set :: "deleter \<Rightarrow> addr \<Rightarrow> ptr \<Rightarrow> world \<Rightarrow> world" where
  "ScopedA_set d this t w =
     (let w1 = Destroy d (mT (boxes w this)) w
      in w1\<lparr>boxes := (boxes w1)(this := (boxes w1 this)\<lparr>mT := t\<rparr>)\<rparr>)"

text \<open>\<^verbatim>\<open>~ScopedA() { set(nullptr); }\<close>; the destructors of the four subclasses are empty
  and run this one.\<close>

definition ScopedA_dtor :: "deleter \<Rightarrow> addr \<Rightarrow> world \<Rightarrow> world" where
  "ScopedA_dtor d this w = ScopedA_set d this nullptr w"

text \<open>\<^verbatim>\<open>T* get() { return mT; }\<close>\<close>

definition ScopedA_get :: "addr \<Rightarrow> world \<Rightarrow> ptr" where
  "ScopedA_get this w = mT (boxes w this)"

text \<open>
  \<^verbatim>\<open>ScopedA(ScopedA&&) = default;\<close> The defaulted move constructor moves member by
  member; moving the raw pointer \<^verbatim>\<open>mT\<close> copies it and leaves \<^verbatim>\<open>other.mT\<close> as it was.
  The subclasses default theirs as well, which run this one.
\<close>

definition ScopedA_move :: "addr \<Rightarrow> addr \<Rightarrow> world \<Rightarrow> world" where
  "ScopedA_move this other w =
     w\<lparr>boxes := (boxes w)(this := \<lparr>mT = mT (boxes w other)\<rparr>)\<rparr>"

text \<open>
  \<^verbatim>\<open>bool isOk() { return get() != nullptr && AStatus_isOk(get()); }\<close>: the right operand
  of \<^verbatim>\<open>&&\<close> runs only when the left one is true.
\<close>

definition ScopedAStatus_isOk :: "runtime \<Rightarrow> addr \<Rightarrow> world \<Rightarrow> bool \<times> world" where
  "ScopedAStatus_isOk rt this w =
     (if ScopedA_get this w \<noteq> nullptr
      then AStatus_isOk rt (ScopedA_get this w) w
      else (False, w))"

text \<open>
  \<^verbatim>\<open>SpAIBinder promote() { return SpAIBinder(AIBinder_Weak_promote(get())); }\<close>
  The returned object is constructed in the caller's return slot \<open>ret\<close> (the prvalue is
  not copied).
\<close>

definition ScopedAIBinder_Weak_promote :: "runtime \<Rightarrow> addr \<Rightarrow> addr \<Rightarrow> world \<Rightarrow> world" where
  "ScopedAIBinder_Weak_promote rt ret this w =
     (let (binder, w1) = AIBinder_Weak_promote rt (ScopedA_get this w) w
      in SpAIBinder_ctor ret binder w1)"

section \<open>Observing a run\<close>

text \<open>The calls made between an earlier world and a later one.\<close>

definition new_calls :: "world \<Rightarrow> world \<Rightarrow> call list" where
  "new_calls w w' = drop (length (calls w)) (calls w')"

text \<open>A world in which every object holds \<^verbatim>\<open>nullptr\<close> and nothing was called yet.\<close>

definition world0 :: world where
  "world0 = \<lparr>binders = (\<lambda>_. \<lparr>mBinder = nullptr\<rparr>), boxes = (\<lambda>_. \<lparr>mT = nullptr\<rparr>), calls = []\<rparr>"

text \<open>A runtime for concrete runs: status \<open>3\<close> is ok, weak token \<open>4\<close> promotes to
  binder \<open>9\<close>, every other token to \<^verbatim>\<open>nullptr\<close>.\<close>

definition runtime0 :: runtime where
  "runtime0 = \<lparr>isOk_result = (\<lambda>_ s. s = 3),
               promote_result = (\<lambda>_ t. if t = 4 then 9 else nullptr)\<rparr>"

section \<open>Client sequences\<close>

text \<open>A box that is \<^verbatim>\<open>set\<close> to each handle of a list in turn.\<close>

fun ScopedA_sets :: "deleter \<Rightarrow> addr \<Rightarrow> ptr list \<Rightarrow> world \<Rightarrow> world" where
  "ScopedA_sets d this [] w = w"
| "ScopedA_sets d this (t # ts) w = ScopedA_sets d this ts (ScopedA_set d this t w)"

text \<open>The whole life of a box: constructed on \<open>t0\<close>, set to each of \<open>ts\<close>, destroyed.\<close>

definition ScopedA_life :: "deleter \<Rightarrow> addr \<Rightarrow> ptr \<Rightarrow> ptr list \<Rightarrow> world \<Rightarrow> world" where
  "ScopedA_life d this t0 ts w =
     ScopedA_dtor d this (ScopedA_sets d this ts (ScopedA_ctor this t0 w))"

text \<open>\<^verbatim>\<open>promote()\<close> called once for each return slot of a list, on the same box.\<close>

fun promotes :: "runtime \<Rightarrow> addr list \<Rightarrow> addr \<Rightarrow> world \<Rightarrow> world" where
  "promotes rt [] this w = w"
| "promotes rt (ret # rets) this w =
     promotes rt rets this (ScopedAIBinder_Weak_promote rt ret this w)"

section \<open>The runtime's contract on null and on strong counts\<close>

text \<open>
  Modelled from the spec: the strong count is kept by the runtime, whose code is not part
  of the sources. \<^verbatim>\<open>incrementStrong\<close> gives its caller one more unit of the handle's
  strong count, \<^verbatim>\<open>decrementStrong\<close> gives one back, and both are a safe no-op on the null
  handle. \<open>strong_effect h c\<close> is the change that the call \<open>c\<close> asks for on the count of
  \<open>h\<close>; \<open>strong_delta h cs\<close> adds it up over a log.
\<close>

fun strong_effect :: "ptr \<Rightarrow> call \<Rightarrow> int" where
  "strong_effect h (IncStrong b) = (if b = h \<and> b \<noteq> nullptr then 1 else 0)"
| "strong_effect h (DecStrong b) = (if b = h \<and> b \<noteq> nullptr then - 1 else 0)"
| "strong_effect h (Delete d t) = 0"
| "strong_effect h (IsOk s) = 0"
| "strong_effect h (Promote t) = 0"

text \<open>
  Modelled from the spec: the net change of the strong count of \<open>h\<close> over a log, the sum
  of what each call asks for.
\<close>

definition strong_delta :: "ptr \<Rightarrow> call list \<Rightarrow> int" where
  "strong_delta h cs = sum_list (map (strong_effect h) cs)"

text \<open>
  Modelled from the spec (no handle is decremented more times than it was acquired).
  \<open>never_below h n cs\<close>: a caller that holds \<open>n\<close> units of \<open>h\<close> and makes the calls \<open>cs\<close>
  never holds fewer than zero units on the way, that is, it never gives back a unit it
  does not have.
\<close>

fun never_below :: "ptr \<Rightarrow> int \<Rightarrow> call list \<Rightarrow> bool" where
  "never_below h n [] = (0 \<le> n)"
| "never_below h n (c # cs) = (0 \<le> n \<and> never_below h (n + strong_effect h c) cs)"

text \<open>
  Modelled from the spec: the \<^verbatim>\<open>*_delete\<close> functions of the runtime are not part of the
  sources; by their contract destroying the null handle is a no-op, so a destroy call has
  an effect only on a non-null handle.
\<close>

fun effective_destroy :: "call \<Rightarrow> bool" where
  "effective_destroy (Delete d t) = (t \<noteq> nullptr)"
| "effective_destroy (IncStrong b) = False"
| "effective_destroy (DecStrong b) = False"
| "effective_destroy (IsOk s) = False"
| "effective_destroy (Promote t) = False"

section \<open>Basic facts about the operations\<close>

lemma new_calls_append: "calls w' = calls w @ cs \<Longrightarrow> new_calls w w' = cs"
  by (simp add: new_calls_def)

lemma SpAIBinder_set_calls:
  "calls (SpAIBinder_set this binder w) =
     calls w @ (if mBinder (binders w this) \<noteq> nullptr
                then [DecStrong (mBinder (binders w this))] else [])"
  by (simp add: SpAIBinder_set_def AIBinder_decStrong_def)

lemma SpAIBinder_set_binders:
  "mBinder (binders (SpAIBinder_set this binder w) x) =
     (if x = this then binder else mBinder (binders w x))"
  by (simp add: SpAIBinder_set_def AIBinder_decStrong_def)

lemma SpAIBinder_set_boxes: "boxes (SpAIBinder_set this binder w) = boxes w"
  by (simp add: SpAIBinder_set_def AIBinder_decStrong_def)

lemma SpAIBinder_assign_calls:
  "calls (SpAIBinder_assign this other w) =
     calls w @ IncStrong (mBinder (binders w other)) #
       (if mBinder (binders w this) \<noteq> nullptr
        then [DecStrong (mBinder (binders w this))] else [])"
  by (simp add: SpAIBinder_assign_def AIBinder_incStrong_def SpAIBinder_set_calls)

lemma SpAIBinder_assign_binders:
  "mBinder (binders (SpAIBinder_assign this other w) x) =
     (if x = this then mBinder (binders w other) else mBinder (binders w x))"
  by (simp add: SpAIBinder_assign_def AIBinder_incStrong_def SpAIBinder_set_binders)

lemma SpAIBinder_copy_calls:
  "calls (SpAIBinder_copy this other w) =
     calls w @ [IncStrong (if other = this then nullptr else mBinder (binders w other))]"
  by (simp add: SpAIBinder_copy_def SpAIBinder_assign_calls)

lemma SpAIBinder_copy_binders:
  "mBinder (binders (SpAIBinder_copy this other w) x) =
     (if x = this then (if other = this then nullptr else mBinder (binders w other))
      else mBinder (binders w x))"
  by (simp add: SpAIBinder_copy_def SpAIBinder_assign_binders)

lemma ScopedA_set_calls:
  "calls (ScopedA_set d this t w) = calls w @ [Delete d (mT (boxes w this))]"
  by (simp add: ScopedA_set_def Destroy_def)

lemma ScopedA_set_boxes:
  "mT (boxes (ScopedA_set d this t w) x) = (if x = this then t else mT (boxes w x))"
  by (simp add: ScopedA_set_def Destroy_def)

lemma ScopedA_sets_calls_held:
  "calls (ScopedA_sets d this ts w) =
     calls w @ map (Delete d) (butlast (mT (boxes w this) # ts))
   \<and> mT (boxes (ScopedA_sets d this ts w) this) = last (mT (boxes w this) # ts)"
proof (induction ts arbitrary: w)
  case Nil
  show ?case by simp
next
  case (Cons t ts)
  show ?case
    using Cons.IH [of "ScopedA_set d this t w"]
    by (simp add: ScopedA_set_calls ScopedA_set_boxes)
qed

lemma count_list_distinct_filter:
  "distinct (filter P xs) \<Longrightarrow> P h \<Longrightarrow> count_list xs h = (if h \<in> set xs then 1 else 0)"
  by (induction xs) (auto split: if_splits)

lemma count_list_Delete: "count_list (map (Delete d) xs) (Delete d h) = count_list xs h"
  by (induction xs) auto

lemma promote_calls:
  "calls (ScopedAIBinder_Weak_promote rt ret this w) = calls w @ [Promote (mT (boxes w this))]"
  by (simp add: ScopedAIBinder_Weak_promote_def AIBinder_Weak_promote_def
      SpAIBinder_ctor_def ScopedA_get_def)

lemma promote_boxes: "boxes (ScopedAIBinder_Weak_promote rt ret this w) = boxes w"
  by (simp add: ScopedAIBinder_Weak_promote_def AIBinder_Weak_promote_def
      SpAIBinder_ctor_def)

lemma promotes_calls_boxes:
  "calls (promotes rt rets this w) =
     calls w @ replicate (length rets) (Promote (mT (boxes w this)))
   \<and> boxes (promotes rt rets this w) = boxes w"
proof (induction rets arbitrary: w)
  case Nil
  show ?case by simp
next
  case (Cons ret rets)
  show ?case
    using Cons.IH [of "ScopedAIBinder_Weak_promote rt ret this w"]
    by (simp add: promote_calls promote_boxes replicate_app_Cons_same)
qed

lemma count_list_replicate_other: "x \<noteq> y \<Longrightarrow> count_list (replicate n x) y = 0"
  by (induction n) auto

lemma SpAIBinder_dtor_calls:
  "calls (SpAIBinder_dtor this w) =
     calls w @ (if mBinder (binders w this) \<noteq> nullptr
                then [DecStrong (mBinder (binders w this))] else [])"
  by (simp add: SpAIBinder_dtor_def SpAIBinder_set_calls)

lemma SpAIBinder_dtor_binders:
  "mBinder (binders (SpAIBinder_dtor this w) x) =
     (if x = this then nullptr else mBinder (binders w x))"
  by (simp add: SpAIBinder_dtor_def SpAIBinder_set_binders)

section \<open>Status wrapper\<close>

text \<open>
  C6. \<^verbatim>\<open>ScopedAStatus::isOk\<close> answers true exactly when the held handle is not null and
  the runtime's \<^verbatim>\<open>AStatus_isOk\<close> answers true on it. On a null handle it answers false and
  leaves the world as it was: in particular the log has no new call, so the runtime's
  predicate was not invoked. On a non-null handle the predicate is invoked once, on the
  held handle.
\<close>

theorem isOk_iff:
  "fst (ScopedAStatus_isOk rt this w) =
     (ScopedA_get this w \<noteq> nullptr \<and> isOk_result rt (calls w) (ScopedA_get this w))
   \<and> (ScopedA_get this w = nullptr \<longrightarrow>
        ScopedAStatus_isOk rt this w = (False, w)
        \<and> new_calls w (snd (ScopedAStatus_isOk rt this w)) = [])
   \<and> (ScopedA_get this w \<noteq> nullptr \<longrightarrow>
        new_calls w (snd (ScopedAStatus_isOk rt this w)) = [IsOk (ScopedA_get this w)])"
  by (simp add: ScopedAStatus_isOk_def AStatus_isOk_def new_calls_def)

theorem isOk_iff_witness:
  "ScopedA_get 0 world0 = nullptr
   \<and> ScopedAStatus_isOk runtime0 0 world0 = (False, world0)
   \<and> new_calls world0 (snd (ScopedAStatus_isOk runtime0 0 world0)) = []
   \<and> ScopedA_get 0 (ScopedA_ctor 0 3 world0) \<noteq> nullptr
   \<and> fst (ScopedAStatus_isOk runtime0 0 (ScopedA_ctor 0 3 world0))
   \<and> new_calls (ScopedA_ctor 0 3 world0)
        (snd (ScopedAStatus_isOk runtime0 0 (ScopedA_ctor 0 3 world0))) = [IsOk 3]"
  using isOk_iff [of runtime0 0 world0] isOk_iff [of runtime0 0 "ScopedA_ctor 0 3 world0"]
  by (simp add: ScopedA_get_def ScopedA_ctor_def world0_def runtime0_def nullptr_def
      new_calls_def)

section \<open>Owned resource box\<close>

text \<open>
  C1. The claim: move-constructing a box from a box that holds \<open>h\<close> leaves the source
  holding the null handle, and destroying the source afterwards calls Destroy on \<open>h\<close> zero
  times. The defaulted move constructor does not do that. Run on a parcel box at address
  \<open>0\<close> that holds handle \<open>7\<close>, moved into a new box at address \<open>1\<close>: the source still holds
  \<open>7\<close>, destroying the source calls \<^verbatim>\<open>AParcel_delete(7)\<close>, and destroying the destination
  calls it a second time.
\<close>

theorem ScopedA_move_keeps_source:
  "ScopedA_get 0 (ScopedA_move 1 0 (ScopedA_ctor 0 7 world0)) = 7
   \<and> ScopedA_get 1 (ScopedA_move 1 0 (ScopedA_ctor 0 7 world0)) = 7
   \<and> (7::nat) \<noteq> nullptr
   \<and> new_calls (ScopedA_move 1 0 (ScopedA_ctor 0 7 world0))
        (ScopedA_dtor AParcel_delete 0 (ScopedA_move 1 0 (ScopedA_ctor 0 7 world0)))
      = [Delete AParcel_delete 7]
   \<and> calls (ScopedA_dtor AParcel_delete 1
        (ScopedA_dtor AParcel_delete 0 (ScopedA_move 1 0 (ScopedA_ctor 0 7 world0))))
      = [Delete AParcel_delete 7, Delete AParcel_delete 7]"
  by (simp add: ScopedA_get_def ScopedA_move_def ScopedA_ctor_def ScopedA_dtor_def
      ScopedA_set_def Destroy_def new_calls_def world0_def nullptr_def)

text \<open>
  C4. A box is constructed on \<open>t0\<close>, set to each handle of \<open>ts\<close> in turn and destroyed;
  no non-null handle is stored twice. Then the calls the box makes are exactly one Destroy
  for each stored handle, in the order in which they were stored; every non-null handle
  that was stored is destroyed exactly once and a non-null handle that was never stored is
  not destroyed; and after the first \<open>k\<close> set calls exactly the first \<open>k\<close> stored handles
  (those replaced so far) have been destroyed while the box holds the next one, which is
  destroyed by the set call that replaces it or, for the last one, by the destructor.
\<close>

theorem ScopedA_destroys_each_once:
  assumes "distinct (filter (\<lambda>t. t \<noteq> nullptr) (t0 # ts))"
  shows "new_calls w (ScopedA_life d this t0 ts w) = map (Delete d) (t0 # ts)
    \<and> (\<forall>h. h \<noteq> nullptr \<longrightarrow>
          count_list (new_calls w (ScopedA_life d this t0 ts w)) (Delete d h) =
            (if h \<in> set (t0 # ts) then 1 else 0))
    \<and> (\<forall>k. k \<le> length ts \<longrightarrow>
          new_calls w (ScopedA_sets d this (take k ts) (ScopedA_ctor this t0 w)) =
            map (Delete d) (take k (t0 # ts))
          \<and> ScopedA_get this (ScopedA_sets d this (take k ts) (ScopedA_ctor this t0 w)) =
            (t0 # ts) ! k)"
proof -
  let ?w0 = "ScopedA_ctor this t0 w"
  have held0: "mT (boxes ?w0 this) = t0" and calls0: "calls ?w0 = calls w"
    by (simp_all add: ScopedA_ctor_def)
  have run: "calls (ScopedA_sets d this us ?w0) = calls w @ map (Delete d) (butlast (t0 # us))"
    and held: "mT (boxes (ScopedA_sets d this us ?w0) this) = last (t0 # us)" for us
    using ScopedA_sets_calls_held [of d this us ?w0] held0 calls0 by simp_all
  have "calls (ScopedA_life d this t0 ts w) =
      calls w @ map (Delete d) (butlast (t0 # ts)) @ [Delete d (last (t0 # ts))]"
    unfolding ScopedA_life_def ScopedA_dtor_def ScopedA_set_calls run held by simp
  also have "map (Delete d) (butlast (t0 # ts)) @ [Delete d (last (t0 # ts))] =
      map (Delete d) (butlast (t0 # ts) @ [last (t0 # ts)])"
    by simp
  also have "butlast (t0 # ts) @ [last (t0 # ts)] = t0 # ts"
    by (rule append_butlast_last_id) simp
  finally have life: "new_calls w (ScopedA_life d this t0 ts w) = map (Delete d) (t0 # ts)"
    by (rule new_calls_append)
  have once: "count_list (new_calls w (ScopedA_life d this t0 ts w)) (Delete d h) =
      (if h \<in> set (t0 # ts) then 1 else 0)" if "h \<noteq> nullptr" for h
    unfolding life count_list_Delete
    using assms that by (rule count_list_distinct_filter)
  have step: "new_calls w (ScopedA_sets d this (take k ts) ?w0) =
        map (Delete d) (take k (t0 # ts))
      \<and> ScopedA_get this (ScopedA_sets d this (take k ts) ?w0) = (t0 # ts) ! k"
    if k: "k \<le> length ts" for k
  proof -
    have len: "length (t0 # take k ts) = Suc k"
      using k by simp
    have "butlast (t0 # take k ts) = take k (t0 # take k ts)"
      using len by (simp add: butlast_conv_take del: butlast.simps take_Suc_Cons)
    also have "\<dots> = take k (t0 # ts)"
      by (cases k) simp_all
    finally have b: "butlast (t0 # take k ts) = take k (t0 # ts)" .
    have "last (t0 # take k ts) = (t0 # take k ts) ! k"
      using len by (simp add: last_conv_nth del: last.simps nth_Cons_Suc)
    also have "\<dots> = (t0 # ts) ! k"
      using k by (cases k) simp_all
    finally have l: "last (t0 # take k ts) = (t0 # ts) ! k" .
    show ?thesis
      using run [of "take k ts"] held [of "take k ts"]
      by (simp only: b l ScopedA_get_def new_calls_append simp_thms)
  qed
  show ?thesis
    using life once step by blast
qed

theorem ScopedA_destroys_each_once_witness:
  "distinct (filter (\<lambda>t. t \<noteq> nullptr) [5, nullptr, 6, nullptr])
   \<and> new_calls world0 (ScopedA_life AStatus_delete 2 5 [nullptr, 6, nullptr] world0) =
       [Delete AStatus_delete 5, Delete AStatus_delete nullptr,
        Delete AStatus_delete 6, Delete AStatus_delete nullptr]
   \<and> count_list (new_calls world0 (ScopedA_life AStatus_delete 2 5 [nullptr, 6, nullptr] world0))
       (Delete AStatus_delete 6) = 1
   \<and> count_list (new_calls world0 (ScopedA_life AStatus_delete 2 5 [nullptr, 6, nullptr] world0))
       (Delete AStatus_delete 8) = 0
   \<and> new_calls world0 (ScopedA_sets AStatus_delete 2 [nullptr, 6] (ScopedA_ctor 2 5 world0)) =
       [Delete AStatus_delete 5, Delete AStatus_delete nullptr]
   \<and> ScopedA_get 2 (ScopedA_sets AStatus_delete 2 [nullptr, 6] (ScopedA_ctor 2 5 world0)) = 6"
proof -
  have d: "distinct (filter (\<lambda>t. t \<noteq> nullptr) (5 # [nullptr, 6, nullptr]))"
    by (simp add: nullptr_def)
  have n6: "(6::nat) \<noteq> nullptr" and n8: "(8::nat) \<noteq> nullptr"
    by (simp_all add: nullptr_def)
  note t = ScopedA_destroys_each_once [OF d, of world0 AStatus_delete 2]
  from t have a: "new_calls world0 (ScopedA_life AStatus_delete 2 5 [nullptr, 6, nullptr] world0) =
      map (Delete AStatus_delete) [5, nullptr, 6, nullptr]"
    by blast
  from t n6 have b: "count_list
      (new_calls world0 (ScopedA_life AStatus_delete 2 5 [nullptr, 6, nullptr] world0))
      (Delete AStatus_delete 6) = (if 6 \<in> set [5, nullptr, 6, nullptr] then 1 else 0)"
    by blast
  from t n8 have c: "count_list
      (new_calls world0 (ScopedA_life AStatus_delete 2 5 [nullptr, 6, nullptr] world0))
      (Delete AStatus_delete 8) = (if 8 \<in> set [5, nullptr, 6, nullptr] then 1 else 0)"
    by blast
  have "(2::nat) \<le> length [nullptr, 6, nullptr]"
    by simp
  with t have e: "new_calls world0 (ScopedA_sets AStatus_delete 2 (take 2 [nullptr, 6, nullptr])
        (ScopedA_ctor 2 5 world0)) = map (Delete AStatus_delete) (take 2 [5, nullptr, 6, nullptr])
      \<and> ScopedA_get 2 (ScopedA_sets AStatus_delete 2 (take 2 [nullptr, 6, nullptr])
        (ScopedA_ctor 2 5 world0)) = [5, nullptr, 6, nullptr] ! 2"
    by blast
  have tk: "take 2 [nullptr, 6, nullptr] = [nullptr, 6::nat]"
    "take 2 [5, nullptr, 6, nullptr] = [5, nullptr::nat]"
    "[5, nullptr, 6, nullptr] ! 2 = (6::nat)"
    by (simp_all add: numeral_2_eq_2)
  show ?thesis
    using d a b c e by (simp add: tk nullptr_def)
qed

text \<open>
  C8. A box that is default-constructed (on \<^verbatim>\<open>nullptr\<close>) and then destroyed makes exactly
  one call, Destroy on the null handle: every Destroy call of this life is passed null,
  and none of them is effective under the runtime's contract that destroying null is a
  no-op.
\<close>

theorem ScopedA_default_then_destroy:
  "new_calls w (ScopedA_dtor d this (ScopedA_ctor this nullptr w)) = [Delete d nullptr]
   \<and> filter effective_destroy
       (new_calls w (ScopedA_dtor d this (ScopedA_ctor this nullptr w))) = []
   \<and> filter (\<lambda>c. c \<noteq> Delete d nullptr)
       (new_calls w (ScopedA_dtor d this (ScopedA_ctor this nullptr w))) = []"
proof -
  have "calls (ScopedA_dtor d this (ScopedA_ctor this nullptr w)) =
      calls w @ [Delete d nullptr]"
    by (simp add: ScopedA_dtor_def ScopedA_set_calls ScopedA_ctor_def)
  then have "new_calls w (ScopedA_dtor d this (ScopedA_ctor this nullptr w)) =
      [Delete d nullptr]"
    by (rule new_calls_append)
  then show ?thesis by simp
qed

section \<open>Strong binder reference\<close>

text \<open>
  C2. An SpAIBinder at \<open>this\<close> holds the non-null handle \<open>H\<close> and is assigned an
  SpAIBinder \<open>other\<close> that holds \<open>H\<close> too (\<open>other\<close> may be the very same object). The
  assignment calls \<^verbatim>\<open>AIBinder_incStrong(H)\<close> and then \<^verbatim>\<open>AIBinder_decStrong(H)\<close>, in this
  order and nothing else; the net change of the strong count of \<open>H\<close> is zero; the caller
  never gives back a unit it has not taken before; and both objects hold \<open>H\<close> afterwards.
\<close>

theorem SpAIBinder_assign_same_handle:
  assumes "SpAIBinder_get this w = H" and "SpAIBinder_get other w = H" and "H \<noteq> nullptr"
  shows "new_calls w (SpAIBinder_assign this other w) = [IncStrong H, DecStrong H]
    \<and> strong_delta H (new_calls w (SpAIBinder_assign this other w)) = 0
    \<and> never_below H 0 (new_calls w (SpAIBinder_assign this other w))
    \<and> SpAIBinder_get this (SpAIBinder_assign this other w) = H
    \<and> SpAIBinder_get other (SpAIBinder_assign this other w) = H"
proof -
  have "calls (SpAIBinder_assign this other w) = calls w @ [IncStrong H, DecStrong H]"
    using assms by (simp add: SpAIBinder_assign_calls SpAIBinder_get_def)
  then have n: "new_calls w (SpAIBinder_assign this other w) = [IncStrong H, DecStrong H]"
    by (rule new_calls_append)
  have d: "strong_delta H [IncStrong H, DecStrong H] = 0"
    using assms(3) by (simp add: strong_delta_def)
  have b: "never_below H 0 [IncStrong H, DecStrong H]"
    using assms(3) by simp
  have g: "SpAIBinder_get this (SpAIBinder_assign this other w) = H"
    "SpAIBinder_get other (SpAIBinder_assign this other w) = H"
    using assms by (simp_all add: SpAIBinder_get_def SpAIBinder_assign_binders)
  show ?thesis
    using d b g by (simp only: n simp_thms)
qed

theorem SpAIBinder_assign_same_handle_witness:
  "SpAIBinder_get 0 (SpAIBinder_ctor 0 5 world0) = 5
   \<and> (5::nat) \<noteq> nullptr
   \<and> new_calls (SpAIBinder_ctor 0 5 world0)
       (SpAIBinder_assign 0 0 (SpAIBinder_ctor 0 5 world0)) = [IncStrong 5, DecStrong 5]
   \<and> strong_delta 5 (new_calls (SpAIBinder_ctor 0 5 world0)
       (SpAIBinder_assign 0 0 (SpAIBinder_ctor 0 5 world0))) = 0
   \<and> never_below 5 0 (new_calls (SpAIBinder_ctor 0 5 world0)
       (SpAIBinder_assign 0 0 (SpAIBinder_ctor 0 5 world0)))
   \<and> SpAIBinder_get 0 (SpAIBinder_assign 0 0 (SpAIBinder_ctor 0 5 world0)) = 5"
proof -
  have g: "SpAIBinder_get 0 (SpAIBinder_ctor 0 5 world0) = 5"
    by (simp add: SpAIBinder_get_def SpAIBinder_ctor_def)
  have n: "(5::nat) \<noteq> nullptr"
    by (simp add: nullptr_def)
  show ?thesis
    using g n SpAIBinder_assign_same_handle [OF g g n] by blast
qed

text \<open>
  C3, as the claim states it, fails: copying from an SpAIBinder that holds the null handle
  does call \<^verbatim>\<open>AIBinder_incStrong\<close>, with \<^verbatim>\<open>nullptr\<close> as its argument. Here the object at
  address \<open>0\<close> holds null and is copy-constructed, and copy-assigned, into address \<open>1\<close>.
\<close>

theorem SpAIBinder_copy_null_calls_incStrong:
  "SpAIBinder_get 0 world0 = nullptr
   \<and> IncStrong nullptr \<in> set (new_calls world0 (SpAIBinder_copy 1 0 world0))
   \<and> IncStrong nullptr \<in> set (new_calls world0 (SpAIBinder_assign 1 0 world0))"
  by (simp add: SpAIBinder_get_def world0_def new_calls_def SpAIBinder_copy_calls
      SpAIBinder_assign_calls)

text \<open>
  C3, amended. When the source holds the null handle, copy construction makes exactly one
  call, \<^verbatim>\<open>AIBinder_incStrong(nullptr)\<close>; copy assignment makes that call and then gives
  back the destination's previous handle if it had one. The increment is not guarded, but
  no increment is asked for on any non-null handle, and under the runtime's contract that
  incrementing null is a no-op the call changes no strong count.
\<close>

theorem SpAIBinder_copy_null_source:
  assumes "SpAIBinder_get other w = nullptr"
  shows "new_calls w (SpAIBinder_copy this other w) = [IncStrong nullptr]
    \<and> new_calls w (SpAIBinder_assign this other w) =
        IncStrong nullptr #
          (if SpAIBinder_get this w \<noteq> nullptr then [DecStrong (SpAIBinder_get this w)] else [])
    \<and> (\<forall>h. strong_effect h (IncStrong nullptr) = 0)
    \<and> (\<forall>h. h \<noteq> nullptr \<longrightarrow>
          IncStrong h \<notin> set (new_calls w (SpAIBinder_copy this other w))
          \<and> IncStrong h \<notin> set (new_calls w (SpAIBinder_assign this other w)))"
proof -
  have "calls (SpAIBinder_copy this other w) = calls w @ [IncStrong nullptr]"
    using assms by (simp add: SpAIBinder_copy_calls SpAIBinder_get_def)
  then have c: "new_calls w (SpAIBinder_copy this other w) = [IncStrong nullptr]"
    by (rule new_calls_append)
  have "calls (SpAIBinder_assign this other w) =
      calls w @ IncStrong nullptr #
        (if SpAIBinder_get this w \<noteq> nullptr then [DecStrong (SpAIBinder_get this w)] else [])"
    using assms by (simp add: SpAIBinder_assign_calls SpAIBinder_get_def)
  then have a: "new_calls w (SpAIBinder_assign this other w) =
      IncStrong nullptr #
        (if SpAIBinder_get this w \<noteq> nullptr then [DecStrong (SpAIBinder_get this w)] else [])"
    by (rule new_calls_append)
  have e: "strong_effect h (IncStrong nullptr) = 0" for h
    by simp
  have n: "IncStrong h \<notin> set (new_calls w (SpAIBinder_copy this other w))
      \<and> IncStrong h \<notin> set (new_calls w (SpAIBinder_assign this other w))"
    if "h \<noteq> nullptr" for h
    using that unfolding c a by auto
  show ?thesis
    using c a e n by blast
qed

theorem SpAIBinder_copy_null_source_witness:
  "SpAIBinder_get 0 (SpAIBinder_ctor 1 8 world0) = nullptr
   \<and> new_calls (SpAIBinder_ctor 1 8 world0)
       (SpAIBinder_copy 1 0 (SpAIBinder_ctor 1 8 world0)) = [IncStrong nullptr]
   \<and> new_calls (SpAIBinder_ctor 1 8 world0)
       (SpAIBinder_assign 1 0 (SpAIBinder_ctor 1 8 world0)) = [IncStrong nullptr, DecStrong 8]
   \<and> strong_effect 8 (IncStrong nullptr) = 0
   \<and> IncStrong 8 \<notin> set (new_calls (SpAIBinder_ctor 1 8 world0)
       (SpAIBinder_assign 1 0 (SpAIBinder_ctor 1 8 world0)))"
proof -
  have g: "SpAIBinder_get 0 (SpAIBinder_ctor 1 8 world0) = nullptr"
    by (simp add: SpAIBinder_get_def SpAIBinder_ctor_def world0_def)
  have h: "SpAIBinder_get 1 (SpAIBinder_ctor 1 8 world0) = 8" and n: "(8::nat) \<noteq> nullptr"
    by (simp_all add: SpAIBinder_get_def SpAIBinder_ctor_def nullptr_def)
  note t = SpAIBinder_copy_null_source [OF g, of 1]
  from t have "new_calls (SpAIBinder_ctor 1 8 world0)
      (SpAIBinder_assign 1 0 (SpAIBinder_ctor 1 8 world0)) =
      IncStrong nullptr #
        (if SpAIBinder_get 1 (SpAIBinder_ctor 1 8 world0) \<noteq> nullptr
         then [DecStrong (SpAIBinder_get 1 (SpAIBinder_ctor 1 8 world0))] else [])"
    by blast
  then have a: "new_calls (SpAIBinder_ctor 1 8 world0)
      (SpAIBinder_assign 1 0 (SpAIBinder_ctor 1 8 world0)) = [IncStrong nullptr, DecStrong 8]"
    by (simp only: h n if_True simp_thms)
  from t n have b: "IncStrong 8 \<notin> set (new_calls (SpAIBinder_ctor 1 8 world0)
      (SpAIBinder_assign 1 0 (SpAIBinder_ctor 1 8 world0)))"
    by blast
  show ?thesis
    using g t a b by blast
qed

text \<open>
  C5. \<open>a\<close> holds the non-null handle \<open>H\<close>; \<open>b\<close>, another object, is copy-constructed from
  \<open>a\<close>; then \<open>b\<close> and \<open>a\<close> are destroyed (in either order). The copy calls
  \<^verbatim>\<open>AIBinder_incStrong(H)\<close> once, each destructor calls \<^verbatim>\<open>AIBinder_decStrong(H)\<close> once, and
  these are all the calls: one increment and two decrements of \<open>H\<close>. Together with the one
  unit \<open>a\<close> owned, the net change is zero, and at no point is a unit given back that is
  not held.
\<close>

theorem SpAIBinder_copy_then_destroy_both:
  assumes "a \<noteq> b" and "SpAIBinder_get a w = H" and "H \<noteq> nullptr"
  shows "new_calls w (SpAIBinder_copy b a w) = [IncStrong H]
    \<and> new_calls (SpAIBinder_copy b a w) (SpAIBinder_dtor b (SpAIBinder_copy b a w)) =
        [DecStrong H]
    \<and> new_calls (SpAIBinder_dtor b (SpAIBinder_copy b a w))
        (SpAIBinder_dtor a (SpAIBinder_dtor b (SpAIBinder_copy b a w))) = [DecStrong H]
    \<and> new_calls w (SpAIBinder_dtor a (SpAIBinder_dtor b (SpAIBinder_copy b a w))) =
        [IncStrong H, DecStrong H, DecStrong H]
    \<and> new_calls w (SpAIBinder_dtor b (SpAIBinder_dtor a (SpAIBinder_copy b a w))) =
        [IncStrong H, DecStrong H, DecStrong H]
    \<and> count_list [IncStrong H, DecStrong H, DecStrong H] (IncStrong H) = 1
    \<and> count_list [IncStrong H, DecStrong H, DecStrong H] (DecStrong H) = 2
    \<and> 1 + strong_delta H [IncStrong H, DecStrong H, DecStrong H] = 0
    \<and> never_below H 1 [IncStrong H, DecStrong H, DecStrong H]"
proof -
  let ?w1 = "SpAIBinder_copy b a w"
  let ?w2 = "SpAIBinder_dtor b ?w1"
  let ?w3 = "SpAIBinder_dtor a ?w2"
  let ?v2 = "SpAIBinder_dtor a ?w1"
  let ?v3 = "SpAIBinder_dtor b ?v2"
  have Ha: "mBinder (binders w a) = H"
    using assms(2) by (simp add: SpAIBinder_get_def)
  have c1: "calls ?w1 = calls w @ [IncStrong H]"
    using assms(1) Ha by (simp add: SpAIBinder_copy_calls)
  have b1: "mBinder (binders ?w1 b) = H" "mBinder (binders ?w1 a) = H"
    using assms(1) Ha by (simp_all add: SpAIBinder_copy_binders)
  have c2: "calls ?w2 = calls ?w1 @ [DecStrong H]"
    using b1 assms(3) by (simp add: SpAIBinder_dtor_calls)
  have b2: "mBinder (binders ?w2 a) = H"
    using b1 assms(1) by (simp add: SpAIBinder_dtor_binders)
  have c3: "calls ?w3 = calls ?w2 @ [DecStrong H]"
    using b2 assms(3) by (simp add: SpAIBinder_dtor_calls)
  have d2: "calls ?v2 = calls ?w1 @ [DecStrong H]"
    using b1 assms(3) by (simp add: SpAIBinder_dtor_calls)
  have e2: "mBinder (binders ?v2 b) = H"
    using b1 assms(1) by (simp add: SpAIBinder_dtor_binders)
  have d3: "calls ?v3 = calls ?v2 @ [DecStrong H]"
    using e2 assms(3) by (simp add: SpAIBinder_dtor_calls)
  have n1: "new_calls w ?w1 = [IncStrong H]"
    using c1 by (rule new_calls_append)
  have n2: "new_calls ?w1 ?w2 = [DecStrong H]"
    using c2 by (rule new_calls_append)
  have n3: "new_calls ?w2 ?w3 = [DecStrong H]"
    using c3 by (rule new_calls_append)
  have "calls ?w3 = calls w @ [IncStrong H, DecStrong H, DecStrong H]"
    by (simp add: c3 c2 c1)
  then have n4: "new_calls w ?w3 = [IncStrong H, DecStrong H, DecStrong H]"
    by (rule new_calls_append)
  have "calls ?v3 = calls w @ [IncStrong H, DecStrong H, DecStrong H]"
    by (simp add: d3 d2 c1)
  then have n5: "new_calls w ?v3 = [IncStrong H, DecStrong H, DecStrong H]"
    by (rule new_calls_append)
  have k: "count_list [IncStrong H, DecStrong H, DecStrong H] (IncStrong H) = 1"
    "count_list [IncStrong H, DecStrong H, DecStrong H] (DecStrong H) = 2"
    by simp_all
  have s: "1 + strong_delta H [IncStrong H, DecStrong H, DecStrong H] = 0"
    using assms(3) by (simp add: strong_delta_def)
  have v: "never_below H 1 [IncStrong H, DecStrong H, DecStrong H]"
    using assms(3) by simp
  show ?thesis
    using n1 n2 n3 n4 n5 k s v by blast
qed

theorem SpAIBinder_copy_then_destroy_both_witness:
  "(0::nat) \<noteq> 1 \<and> SpAIBinder_get 0 (SpAIBinder_ctor 0 5 world0) = 5 \<and> (5::nat) \<noteq> nullptr
   \<and> new_calls (SpAIBinder_ctor 0 5 world0)
       (SpAIBinder_dtor 0 (SpAIBinder_dtor 1 (SpAIBinder_copy 1 0 (SpAIBinder_ctor 0 5 world0))))
     = [IncStrong 5, DecStrong 5, DecStrong 5]
   \<and> 1 + strong_delta 5 [IncStrong 5, DecStrong 5, DecStrong 5] = 0
   \<and> never_below 5 1 [IncStrong 5, DecStrong 5, DecStrong 5]"
proof -
  have ne: "(0::nat) \<noteq> 1"
    by simp
  have g: "SpAIBinder_get 0 (SpAIBinder_ctor 0 5 world0) = 5"
    by (simp add: SpAIBinder_get_def SpAIBinder_ctor_def)
  have n: "(5::nat) \<noteq> nullptr"
    by (simp add: nullptr_def)
  show ?thesis
    using ne g n SpAIBinder_copy_then_destroy_both [OF ne g n] by blast
qed

text \<open>
  C9. Copy construction is default initialization of \<^verbatim>\<open>mBinder\<close> to null followed by the
  assignment. Whatever the memory at \<open>this\<close> held before, no \<^verbatim>\<open>AIBinder_decStrong\<close> is
  called, and the new object holds the same handle as the source afterwards. For a source
  that is another object than the one under construction, the one call made is
  \<^verbatim>\<open>AIBinder_incStrong\<close> on the source's handle and the source keeps its handle.
\<close>

theorem SpAIBinder_copy_no_decrement:
  "SpAIBinder_copy this other w = SpAIBinder_assign this other (SpAIBinder_ctor this nullptr w)
   \<and> SpAIBinder_get this (SpAIBinder_ctor this nullptr w) = nullptr
   \<and> (\<forall>h. DecStrong h \<notin> set (new_calls w (SpAIBinder_copy this other w)))
   \<and> SpAIBinder_get this (SpAIBinder_copy this other w) =
       SpAIBinder_get other (SpAIBinder_copy this other w)
   \<and> (this \<noteq> other \<longrightarrow>
        new_calls w (SpAIBinder_copy this other w) = [IncStrong (SpAIBinder_get other w)]
        \<and> SpAIBinder_get this (SpAIBinder_copy this other w) = SpAIBinder_get other w
        \<and> SpAIBinder_get other (SpAIBinder_copy this other w) = SpAIBinder_get other w)"
proof -
  have i: "SpAIBinder_copy this other w =
      SpAIBinder_assign this other (SpAIBinder_ctor this nullptr w)"
    by (simp add: SpAIBinder_copy_def SpAIBinder_ctor_def)
  have z: "SpAIBinder_get this (SpAIBinder_ctor this nullptr w) = nullptr"
    by (simp add: SpAIBinder_get_def SpAIBinder_ctor_def)
  have "calls (SpAIBinder_copy this other w) =
      calls w @ [IncStrong (if other = this then nullptr else mBinder (binders w other))]"
    by (rule SpAIBinder_copy_calls)
  then have n: "new_calls w (SpAIBinder_copy this other w) =
      [IncStrong (if other = this then nullptr else mBinder (binders w other))]"
    by (rule new_calls_append)
  have d: "DecStrong h \<notin> set (new_calls w (SpAIBinder_copy this other w))" for h
    unfolding n by simp
  have s: "SpAIBinder_get this (SpAIBinder_copy this other w) =
      SpAIBinder_get other (SpAIBinder_copy this other w)"
    by (simp add: SpAIBinder_get_def SpAIBinder_copy_binders)
  have o: "new_calls w (SpAIBinder_copy this other w) = [IncStrong (SpAIBinder_get other w)]
      \<and> SpAIBinder_get this (SpAIBinder_copy this other w) = SpAIBinder_get other w
      \<and> SpAIBinder_get other (SpAIBinder_copy this other w) = SpAIBinder_get other w"
    if "this \<noteq> other"
    using that by (simp add: n SpAIBinder_get_def SpAIBinder_copy_binders)
  show ?thesis
    using i z d s o by blast
qed

theorem SpAIBinder_copy_no_decrement_witness:
  "(1::nat) \<noteq> 0
   \<and> SpAIBinder_get 1 (SpAIBinder_ctor 1 8 (SpAIBinder_ctor 0 5 world0)) = 8
   \<and> new_calls (SpAIBinder_ctor 1 8 (SpAIBinder_ctor 0 5 world0))
       (SpAIBinder_copy 1 0 (SpAIBinder_ctor 1 8 (SpAIBinder_ctor 0 5 world0))) = [IncStrong 5]
   \<and> DecStrong 8 \<notin> set (new_calls (SpAIBinder_ctor 1 8 (SpAIBinder_ctor 0 5 world0))
       (SpAIBinder_copy 1 0 (SpAIBinder_ctor 1 8 (SpAIBinder_ctor 0 5 world0))))
   \<and> SpAIBinder_get 1 (SpAIBinder_copy 1 0 (SpAIBinder_ctor 1 8 (SpAIBinder_ctor 0 5 world0))) = 5
   \<and> SpAIBinder_get 0 (SpAIBinder_copy 1 0 (SpAIBinder_ctor 1 8 (SpAIBinder_ctor 0 5 world0))) = 5"
proof -
  have ne: "(1::nat) \<noteq> 0"
    by simp
  have g: "SpAIBinder_get 1 (SpAIBinder_ctor 1 8 (SpAIBinder_ctor 0 5 world0)) = 8"
    "SpAIBinder_get 0 (SpAIBinder_ctor 1 8 (SpAIBinder_ctor 0 5 world0)) = 5"
    by (simp_all add: SpAIBinder_get_def SpAIBinder_ctor_def)
  note t = SpAIBinder_copy_no_decrement [of 1 0 "SpAIBinder_ctor 1 8 (SpAIBinder_ctor 0 5 world0)"]
  from t have d: "DecStrong 8 \<notin> set (new_calls (SpAIBinder_ctor 1 8 (SpAIBinder_ctor 0 5 world0))
      (SpAIBinder_copy 1 0 (SpAIBinder_ctor 1 8 (SpAIBinder_ctor 0 5 world0))))"
    by blast
  from t ne have "new_calls (SpAIBinder_ctor 1 8 (SpAIBinder_ctor 0 5 world0))
        (SpAIBinder_copy 1 0 (SpAIBinder_ctor 1 8 (SpAIBinder_ctor 0 5 world0))) =
        [IncStrong (SpAIBinder_get 0 (SpAIBinder_ctor 1 8 (SpAIBinder_ctor 0 5 world0)))]
      \<and> SpAIBinder_get 1 (SpAIBinder_copy 1 0 (SpAIBinder_ctor 1 8 (SpAIBinder_ctor 0 5 world0))) =
        SpAIBinder_get 0 (SpAIBinder_ctor 1 8 (SpAIBinder_ctor 0 5 world0))
      \<and> SpAIBinder_get 0 (SpAIBinder_copy 1 0 (SpAIBinder_ctor 1 8 (SpAIBinder_ctor 0 5 world0))) =
        SpAIBinder_get 0 (SpAIBinder_ctor 1 8 (SpAIBinder_ctor 0 5 world0))"
    by blast
  then have o: "new_calls (SpAIBinder_ctor 1 8 (SpAIBinder_ctor 0 5 world0))
        (SpAIBinder_copy 1 0 (SpAIBinder_ctor 1 8 (SpAIBinder_ctor 0 5 world0))) = [IncStrong 5]
      \<and> SpAIBinder_get 1 (SpAIBinder_copy 1 0 (SpAIBinder_ctor 1 8 (SpAIBinder_ctor 0 5 world0))) = 5
      \<and> SpAIBinder_get 0 (SpAIBinder_copy 1 0 (SpAIBinder_ctor 1 8 (SpAIBinder_ctor 0 5 world0))) = 5"
    by (simp only: g(2))
  show ?thesis
    using ne g(1) d o by blast
qed

section \<open>Weak binder reference\<close>

text \<open>
  C7. \<^verbatim>\<open>promote()\<close> makes one call, \<^verbatim>\<open>AIBinder_Weak_promote\<close> on the held weak token, and
  the SpAIBinder it returns holds exactly the handle that call answered: null when the
  runtime answers null, non-null when it answers a handle. No \<^verbatim>\<open>AIBinder_incStrong\<close> is
  called.
\<close>

theorem promote_wraps_runtime_answer:
  "SpAIBinder_get ret (ScopedAIBinder_Weak_promote rt ret this w) =
     promote_result rt (calls w) (ScopedA_get this w)
   \<and> (SpAIBinder_get ret (ScopedAIBinder_Weak_promote rt ret this w) = nullptr) =
       (promote_result rt (calls w) (ScopedA_get this w) = nullptr)
   \<and> new_calls w (ScopedAIBinder_Weak_promote rt ret this w) = [Promote (ScopedA_get this w)]
   \<and> (\<forall>h. IncStrong h \<notin> set (new_calls w (ScopedAIBinder_Weak_promote rt ret this w)))"
proof -
  have g: "SpAIBinder_get ret (ScopedAIBinder_Weak_promote rt ret this w) =
      promote_result rt (calls w) (ScopedA_get this w)"
    by (simp add: ScopedAIBinder_Weak_promote_def AIBinder_Weak_promote_def
        SpAIBinder_ctor_def SpAIBinder_get_def)
  have "calls (ScopedAIBinder_Weak_promote rt ret this w) =
      calls w @ [Promote (ScopedA_get this w)]"
    by (simp add: promote_calls ScopedA_get_def)
  then have n: "new_calls w (ScopedAIBinder_Weak_promote rt ret this w) =
      [Promote (ScopedA_get this w)]"
    by (rule new_calls_append)
  show ?thesis
    by (simp add: g n)
qed

theorem promote_wraps_runtime_answer_witness:
  "SpAIBinder_get 6 (ScopedAIBinder_Weak_promote runtime0 6 2 (ScopedA_ctor 2 4 world0)) = 9
   \<and> SpAIBinder_get 6 (ScopedAIBinder_Weak_promote runtime0 6 2 (ScopedA_ctor 2 5 world0)) = nullptr
   \<and> new_calls (ScopedA_ctor 2 4 world0)
       (ScopedAIBinder_Weak_promote runtime0 6 2 (ScopedA_ctor 2 4 world0)) = [Promote 4]"
proof -
  have g: "ScopedA_get 2 (ScopedA_ctor 2 4 world0) = 4" "ScopedA_get 2 (ScopedA_ctor 2 5 world0) = 5"
    by (simp_all add: ScopedA_get_def ScopedA_ctor_def)
  have r: "promote_result runtime0 cs 4 = 9" "promote_result runtime0 cs 5 = nullptr" for cs
    by (simp_all add: runtime0_def)
  show ?thesis
    using promote_wraps_runtime_answer [of 6 runtime0 2 "ScopedA_ctor 2 4 world0"]
      promote_wraps_runtime_answer [of 6 runtime0 2 "ScopedA_ctor 2 5 world0"]
    by (simp only: g r simp_thms)
qed

text \<open>
  C10. \<^verbatim>\<open>promote()\<close> does not change the box: it holds the same weak token afterwards.
  However many times it is called, the calls are one \<^verbatim>\<open>AIBinder_Weak_promote\<close> on the
  token each, and destroying the box afterwards releases the token with one
  \<^verbatim>\<open>AIBinder_Weak_delete\<close>: over the whole run the token is released exactly once.
\<close>

theorem promote_keeps_weak_token:
  "ScopedA_get this (ScopedAIBinder_Weak_promote rt ret this w) = ScopedA_get this w
   \<and> boxes (promotes rt rets this w) = boxes w
   \<and> ScopedA_get this (promotes rt rets this w) = ScopedA_get this w
   \<and> new_calls w (promotes rt rets this w) =
       replicate (length rets) (Promote (ScopedA_get this w))
   \<and> new_calls w (ScopedA_dtor AIBinder_Weak_delete this (promotes rt rets this w)) =
       replicate (length rets) (Promote (ScopedA_get this w)) @
         [Delete AIBinder_Weak_delete (ScopedA_get this w)]
   \<and> count_list (new_calls w (ScopedA_dtor AIBinder_Weak_delete this (promotes rt rets this w)))
       (Delete AIBinder_Weak_delete (ScopedA_get this w)) = 1"
proof -
  let ?t = "ScopedA_get this w"
  let ?w' = "promotes rt rets this w"
  have one: "ScopedA_get this (ScopedAIBinder_Weak_promote rt ret this w) = ?t"
    by (simp add: ScopedA_get_def promote_boxes)
  have c: "calls ?w' = calls w @ replicate (length rets) (Promote ?t)"
    and b: "boxes ?w' = boxes w"
    using promotes_calls_boxes [of rt rets this w] by (simp_all add: ScopedA_get_def)
  have h: "ScopedA_get this ?w' = ?t"
    by (simp add: ScopedA_get_def b)
  have n: "new_calls w ?w' = replicate (length rets) (Promote ?t)"
    using c by (rule new_calls_append)
  have "calls (ScopedA_dtor AIBinder_Weak_delete this ?w') =
      calls w @ replicate (length rets) (Promote ?t) @ [Delete AIBinder_Weak_delete ?t]"
    by (simp add: ScopedA_dtor_def ScopedA_set_calls c b ScopedA_get_def)
  then have m: "new_calls w (ScopedA_dtor AIBinder_Weak_delete this ?w') =
      replicate (length rets) (Promote ?t) @ [Delete AIBinder_Weak_delete ?t]"
    by (rule new_calls_append)
  have k: "count_list (replicate (length rets) (Promote ?t) @ [Delete AIBinder_Weak_delete ?t])
      (Delete AIBinder_Weak_delete ?t) = 1"
    by (simp add: count_list_replicate_other)
  show ?thesis
    using one b h n m k by (simp only: simp_thms)
qed

end
